theory Spec2Isabelle
  imports
    Complex_Main
    "HOL-Library.Sublist"
    "HOL-Library.Char_ord"
    "HOL-Library.List_Lexorder"
begin

section \<open>Python values used by jira\_analytics.py\<close>

subsection \<open>Strings\<close>

text \<open>
  A Python \<open>str\<close> is modelled as a \<open>string\<close> (a list of 8-bit characters, read as code
  points). \<open>str.lower()\<close> maps the letters A..Z to a..z; the three keywords the program
  looks for consist of ASCII letters only, and no character outside A..Z lowers to one of
  their letters, so the model leaves every other character unchanged.
\<close>

definition lower_char :: "char \<Rightarrow> char" where
  "lower_char c =
     (case map_of (zip ''ABCDEFGHIJKLMNOPQRSTUVWXYZ'' ''abcdefghijklmnopqrstuvwxyz'') c of
        Some l \<Rightarrow> l
      | None \<Rightarrow> c)"

definition lower :: "string \<Rightarrow> string" where
  "lower s = map lower_char s"

text \<open>\<open>sub in s\<close> on strings: \<open>sub\<close> occurs in \<open>s\<close> as a contiguous block.\<close>

fun str_in :: "string \<Rightarrow> string \<Rightarrow> bool" where
  "str_in sub [] = (sub = [])"
| "str_in sub (c # cs) = (prefix sub (c # cs) \<or> str_in sub cs)"

text \<open>Truth value of an optional string: \<open>None\<close> and the empty string are false.\<close>

fun truthy :: "string option \<Rightarrow> bool" where
  "truthy None = False"
| "truthy (Some s) = (s \<noteq> [])"

subsection \<open>Dates and durations\<close>

text \<open>
  A timezone-aware \<open>datetime\<close>: the instant in microseconds since the epoch (UTC) and
  the offset of its timezone in microseconds. The difference of two datetimes is a
  \<open>timedelta\<close>, a whole number of microseconds; \<open>.date()\<close> is the calendar day of the
  local wall-clock time, kept as a day number. Python's floats are modelled as reals.
\<close>

record datetime =
  instant :: int
  utcoffset :: int

type_synonym timedelta = int

definition dt_sub :: "datetime \<Rightarrow> datetime \<Rightarrow> timedelta" where
  "dt_sub a b = instant a - instant b"

definition total_seconds :: "timedelta \<Rightarrow> real" where
  "total_seconds td = real_of_int td / 1000000"

definition date :: "datetime \<Rightarrow> int" where
  "date d = (instant d + utcoffset d) div 86400000000"

text \<open>
  The length of the interval from \<open>b\<close> to \<open>a\<close> in days: the number of microseconds
  between the two instants over the number of microseconds in a day.
\<close>

definition days_between :: "datetime \<Rightarrow> datetime \<Rightarrow> real" where
  "days_between a b = real_of_int (instant a - instant b) / 86400000000"

subsection \<open>Dictionaries\<close>

text \<open>
  A \<open>dict\<close> keeps its keys in insertion order: an association list with distinct keys.
  \<open>dict_add k v d\<close> is the source's idiom
  \<^verbatim>\<open>if k not in d: d[k] = 0\<close> followed by \<^verbatim>\<open>d[k] += v\<close>
  (and \<^verbatim>\<open>d[k] += v\<close> on a \<open>defaultdict\<close>).
\<close>

type_synonym 'v dict = "(string \<times> 'v) list"

fun dict_add :: "string \<Rightarrow> 'v::monoid_add \<Rightarrow> 'v dict \<Rightarrow> 'v dict" where
  "dict_add k v [] = [(k, 0 + v)]"
| "dict_add k v ((k', x) # d) =
     (if k' = k then (k', x + v) # d else (k', x) # dict_add k v d)"

definition dict_values :: "'v dict \<Rightarrow> 'v list" where
  "dict_values d = map snd d"

definition dict_keys :: "'v dict \<Rightarrow> string list" where
  "dict_keys d = map fst d"

section \<open>The issue tracker's data\<close>

datatype error = AttributeError

record user =
  displayName :: "string option"

text \<open>
  The value of \<open>fields['priority']\<close>: the key may be absent, present with the JSON value
  \<open>null\<close>, or an object whose \<open>name\<close> may in turn be absent.
\<close>

datatype priority_field = PriorityAbsent | PriorityNull | PriorityObject "string option"

text \<open>
  An issue as the search returns it: \<open>issue['key']\<close> and the entries of
  \<open>issue['fields']\<close> the program reads. \<open>assignee\<close> and \<open>reporter\<close> are \<open>None\<close> when the
  key is absent or \<open>null\<close> (\<open>fields.get('assignee')\<close> gives \<open>None\<close> in both cases).
\<close>

record issue =
  key :: string
  created :: string
  updated :: string
  status_name :: string
  assignee :: "user option"
  reporter :: "user option"
  priority :: priority_field

section \<open>Terminal statuses and the open duration\<close>

definition is_closed_status :: "string \<Rightarrow> bool" where
  "is_closed_status name =
     (str_in ''closed'' (lower name) \<or> str_in ''resolved'' (lower name)
      \<or> str_in ''done'' (lower name))"

text \<open>
  \<open>calculate_open_duration\<close>; \<open>parse\<close> is \<open>dateutil.parser.parse\<close>, a parameter of the
  model. \<open>None\<close> is the source's \<open>return None\<close>.
\<close>

definition calculate_open_duration :: "(string \<Rightarrow> datetime) \<Rightarrow> issue \<Rightarrow> real option" where
  "calculate_open_duration parse i =
     (let created_dt = parse (created i);
          status = lower (status_name i)
      in if \<not> str_in ''closed'' status \<and> \<not> str_in ''resolved'' status
            \<and> \<not> str_in ''done'' status
         then None
         else let updated_dt = parse (updated i)
              in Some (total_seconds (dt_sub updated_dt created_dt) / (24 * 3600)))"

subsection \<open>Timestamps in the examples\<close>

text \<open>
  Modelled from the spec: \<open>dateutil.parser.parse\<close> is a library function outside the
  repository. The general results below hold for every \<open>parse\<close>; the concrete scenarios
  use timestamps written as \<open>YYYY-MM-DDTHH:MM:SSZ\<close> (section 8 of the specification), read
  here as the UTC instant they denote. The day number of a calendar date counts days since
  1970-01-01 in the proleptic Gregorian calendar.
\<close>

definition digit_val :: "char \<Rightarrow> int" where
  "digit_val c = int (of_char c) - 48"

definition int_of_digits :: "string \<Rightarrow> int" where
  "int_of_digits s = foldl (\<lambda>a c. 10 * a + digit_val c) 0 s"

definition days_from_civil :: "int \<Rightarrow> int \<Rightarrow> int \<Rightarrow> int" where
  "days_from_civil y m d =
     (let y' = (if m \<le> 2 then y - 1 else y);
          era = y' div 400;
          yoe = y' - era * 400;
          mp = (m + 9) mod 12;
          doy = (153 * mp + 2) div 5 + d - 1;
          doe = yoe * 365 + yoe div 4 - yoe div 100 + doy
      in era * 146097 + doe - 719468)"

definition parse_iso_utc :: "string \<Rightarrow> datetime" where
  "parse_iso_utc s =
     (let year = int_of_digits (take 4 s);
          month = int_of_digits (take 2 (drop 5 s));
          day = int_of_digits (take 2 (drop 8 s));
          hour = int_of_digits (take 2 (drop 11 s));
          minute = int_of_digits (take 2 (drop 14 s));
          second = int_of_digits (take 2 (drop 17 s))
      in \<lparr>instant =
            (((days_from_civil year month day * 24 + hour) * 60 + minute) * 60 + second)
              * 1000000,
          utcoffset = 0\<rparr>)"

section \<open>The status-change history of an issue\<close>

text \<open>
  What \<open>_make_request\<close> returns for \<open>/rest/api/2/issue/<key>\<close> with the changelog
  expanded: the list \<open>changelog['histories']\<close>, empty when the request failed or the
  response has no changelog. An entry of \<open>history['items']\<close> carries the changed field
  and the old and new values as strings, each possibly absent.
\<close>

record item =
  field :: "string option"
  fromString :: "string option"
  toString :: "string option"

record history =
  h_created :: string
  h_items :: "item list"
  h_author :: "string option"

record transition =
  issue_key :: string
  timestamp :: string
  from_status :: "string option"
  to_status :: "string option"
  author :: string

definition history_transitions :: "string \<Rightarrow> history \<Rightarrow> transition list" where
  "history_transitions k h =
     map (\<lambda>it. \<lparr>issue_key = k, timestamp = h_created h, from_status = fromString it,
                to_status = toString it,
                author = (case h_author h of None \<Rightarrow> ''Unknown'' | Some n \<Rightarrow> n)\<rparr>)
         (filter (\<lambda>it. field it = Some ''status'') (h_items h))"

text \<open>
  \<open>get_issue_transitions\<close>: the status changes of every history entry, then
  \<open>transitions.sort(key=lambda x: x['timestamp'])\<close>, a stable sort on the timestamp
  strings (compared as Python compares strings, character by character).
\<close>

definition get_issue_transitions :: "(string \<Rightarrow> history list) \<Rightarrow> string \<Rightarrow> transition list" where
  "get_issue_transitions histories k =
     sort_key timestamp (concat (map (history_transitions k) (histories k)))"

section \<open>Time in status\<close>

text \<open>
  One round of the loop over the transitions. The loop state is the dictionary
  \<open>time_in_status\<close>, the cursor \<open>status_start_time\<close> and \<open>current_status\<close>.
\<close>

type_synonym loop_state = "real dict \<times> datetime \<times> string option"

definition process_transition :: "(string \<Rightarrow> datetime) \<Rightarrow> transition \<Rightarrow> loop_state \<Rightarrow> loop_state" where
  "process_transition parse tr st =
     (case st of (time_in_status, status_start_time, current_status) \<Rightarrow>
        let transition_time = parse (timestamp tr);
            time_in_status' =
              (if truthy (from_status tr)
               then dict_add (the (from_status tr))
                      (total_seconds (dt_sub transition_time status_start_time) / (24 * 3600))
                      time_in_status
               else time_in_status)
        in (time_in_status', transition_time, to_status tr))"

text \<open>
  \<open>calculate_time_in_status\<close>. \<open>current_status.lower()\<close> raises \<open>AttributeError\<close> when the
  last transition has no \<open>toString\<close>.
\<close>

definition calculate_time_in_status ::
    "(string \<Rightarrow> datetime) \<Rightarrow> (string \<Rightarrow> history list) \<Rightarrow> issue \<Rightarrow> error + real dict" where
  "calculate_time_in_status parse histories i =
     (let transitions = get_issue_transitions histories (key i)
      in if transitions = [] then Inr []
         else
           case fold (process_transition parse) transitions
                  ([], parse (created i), Some (status_name i)) of
             (time_in_status, status_start_time, current_status) \<Rightarrow>
               (case current_status of
                  None \<Rightarrow> Inl AttributeError
                | Some s \<Rightarrow>
                    if str_in ''closed'' (lower s) \<or> str_in ''resolved'' (lower s)
                       \<or> str_in ''done'' (lower s)
                    then Inr (dict_add s
                                (total_seconds (dt_sub (parse (updated i)) status_start_time)
                                   / (24 * 3600))
                                time_in_status)
                    else Inr time_in_status))"

section \<open>Daily trend\<close>

text \<open>
  The series that \<open>generate_daily_task_trend\<close> computes and hands to the plot.
  \<open>pd.date_range(start, end, freq='D')\<close> is every day from \<open>start\<close> to \<open>end\<close>, both
  included; \<open>np.cumsum\<close> is the list of running totals.
\<close>

record daily_task_trend =
  date_range :: "int list"
  created_counts :: "nat list"
  closed_counts :: "nat list"
  cumulative_created :: "nat list"
  cumulative_closed :: "nat list"

fun cumsum_from :: "nat \<Rightarrow> nat list \<Rightarrow> nat list" where
  "cumsum_from acc [] = []"
| "cumsum_from acc (x # xs) = (acc + x) # cumsum_from (acc + x) xs"

definition cumsum :: "nat list \<Rightarrow> nat list" where
  "cumsum xs = cumsum_from 0 xs"

text \<open>
  The loop appends one creation date per issue and one closing date per issue with a
  closed status; \<open>None\<close> is the early return when there is no date at all.
\<close>

definition generate_daily_task_trend ::
    "(string \<Rightarrow> datetime) \<Rightarrow> issue list \<Rightarrow> daily_task_trend option" where
  "generate_daily_task_trend parse issues =
     (let created_dates = map (\<lambda>i. date (parse (created i))) issues;
          closed_dates =
            map (\<lambda>i. date (parse (updated i)))
              (filter (\<lambda>i. str_in ''closed'' (lower (status_name i))
                            \<or> str_in ''resolved'' (lower (status_name i))
                            \<or> str_in ''done'' (lower (status_name i))) issues)
      in if created_dates = [] \<and> closed_dates = [] then None
         else
           let all_dates = set (created_dates @ closed_dates);
               min_date = Min all_dates;
               max_date = Max all_dates;
               days = [min_date..max_date];
               created_per_day = map (count_list created_dates) days;
               closed_per_day = map (count_list closed_dates) days
           in Some \<lparr>date_range = days,
                     created_counts = created_per_day,
                     closed_counts = closed_per_day,
                     cumulative_created = cumsum created_per_day,
                     cumulative_closed = cumsum closed_per_day\<rparr>)"

section \<open>Tasks per user\<close>

text \<open>
  Counting into a \<open>defaultdict(int)\<close>: an issue counts for a user when the user is
  present and has a \<open>displayName\<close>.
\<close>

definition count_user :: "(issue \<Rightarrow> user option) \<Rightarrow> issue \<Rightarrow> int dict \<Rightarrow> int dict" where
  "count_user who i counts =
     (case who i of
        None \<Rightarrow> counts
      | Some u \<Rightarrow> (case displayName u of None \<Rightarrow> counts | Some n \<Rightarrow> dict_add n 1 counts))"

definition user_counts :: "(issue \<Rightarrow> user option) \<Rightarrow> issue list \<Rightarrow> int dict" where
  "user_counts who issues = fold (count_user who) issues []"

text \<open>\<open>xs[:n]\<close>: a negative \<open>n\<close> counts from the end of the list.\<close>

definition slice_to :: "int \<Rightarrow> 'a list \<Rightarrow> 'a list" where
  "slice_to n xs = (if 0 \<le> n then take (nat n) xs else take (nat (int (length xs) + n)) xs)"

text \<open>
  \<open>sorted(counts.items(), key=lambda x: x[1], reverse=True)[:top_n]\<close>: Python's sort is
  stable, also with \<open>reverse=True\<close>, so this is the stable sort by descending count.
\<close>

definition top_users :: "int \<Rightarrow> int dict \<Rightarrow> (string \<times> int) list" where
  "top_users top_n counts = slice_to top_n (sort_key (\<lambda>x. - snd x) counts)"

definition generate_user_task_distribution ::
    "issue list \<Rightarrow> int \<Rightarrow> (string \<times> int) list \<times> (string \<times> int) list" where
  "generate_user_task_distribution issues top_n =
     (let assignee_counts = user_counts assignee issues;
          reporter_counts = user_counts reporter issues
      in (top_users top_n assignee_counts, top_users top_n reporter_counts))"

section \<open>Tasks per priority\<close>

text \<open>
  \<open>issue['fields'].get('priority', {}).get('name', 'Unknown')\<close>: the default \<open>{}\<close> is used
  only when the key is absent; on a \<open>null\<close> priority the second \<open>get\<close> is called on
  \<open>None\<close> and raises \<open>AttributeError\<close>.
\<close>

fun priority_label :: "priority_field \<Rightarrow> error + string" where
  "priority_label PriorityAbsent = Inr ''Unknown''"
| "priority_label PriorityNull = Inl AttributeError"
| "priority_label (PriorityObject None) = Inr ''Unknown''"
| "priority_label (PriorityObject (Some name)) = Inr name"

fun count_priorities :: "issue list \<Rightarrow> int dict \<Rightarrow> error + int dict" where
  "count_priorities [] priority_counts = Inr priority_counts"
| "count_priorities (i # issues) priority_counts =
     (case priority_label (priority i) of
        Inl e \<Rightarrow> Inl e
      | Inr label \<Rightarrow> count_priorities issues (dict_add label 1 priority_counts))"

text \<open>
  \<open>generate_priority_distribution\<close> up to the plot: \<open>None\<close> when there is nothing to
  count, else the labels and the heights of the bars.
\<close>

definition generate_priority_distribution ::
    "issue list \<Rightarrow> error + (string list \<times> int list) option" where
  "generate_priority_distribution issues =
     (case count_priorities issues [] of
        Inl e \<Rightarrow> Inl e
      | Inr priority_counts \<Rightarrow>
          if priority_counts = [] then Inr None
          else Inr (Some (dict_keys priority_counts, dict_values priority_counts)))"

section \<open>Notions of the specification\<close>

text \<open>
  A status name contains a word case-insensitively when some contiguous part of it equals
  the word up to the case of its letters. A status is terminal when it contains one of
  closed, resolved, done.
\<close>

definition contains_ignoring_case :: "string \<Rightarrow> string \<Rightarrow> bool" where
  "contains_ignoring_case word name =
     (\<exists>pre mid post. name = pre @ mid @ post \<and> lower mid = lower word)"

definition terminal_status :: "string \<Rightarrow> bool" where
  "terminal_status name =
     (contains_ignoring_case ''closed'' name \<or> contains_ignoring_case ''resolved'' name
      \<or> contains_ignoring_case ''done'' name)"

text \<open>
  The transitions are in chronological order from a starting instant: no timestamp
  precedes the one before it, and the first does not precede the start.
\<close>

fun chronological :: "(string \<Rightarrow> datetime) \<Rightarrow> datetime \<Rightarrow> transition list \<Rightarrow> bool" where
  "chronological parse start [] = True"
| "chronological parse start (t # ts) =
     (instant start \<le> instant (parse (timestamp t))
      \<and> chronological parse (parse (timestamp t)) ts)"

text \<open>
  The time that is attributed to no status: the intervals that end at a transition
  without a \<open>from_status\<close>, in days.
\<close>

fun untracked_days :: "(string \<Rightarrow> datetime) \<Rightarrow> datetime \<Rightarrow> transition list \<Rightarrow> real" where
  "untracked_days parse start [] = 0"
| "untracked_days parse start (t # ts) =
     (if truthy (from_status t) then 0 else days_between (parse (timestamp t)) start)
       + untracked_days parse (parse (timestamp t)) ts"

text \<open>The dates on which some issue was created or closed.\<close>

definition observed_dates :: "(string \<Rightarrow> datetime) \<Rightarrow> issue list \<Rightarrow> int set" where
  "observed_dates parse issues =
     (\<lambda>i. date (parse (created i))) ` set issues
     \<union> (\<lambda>i. date (parse (updated i))) ` {i \<in> set issues. is_closed_status (status_name i)}"

text \<open>
  The position in the issue list of the first issue of a user, named by \<open>displayName\<close>
  (the length of the list when the user has none).
\<close>

definition user_name :: "user option \<Rightarrow> string option" where
  "user_name u = (case u of None \<Rightarrow> None | Some x \<Rightarrow> displayName x)"

definition first_seen :: "(issue \<Rightarrow> user option) \<Rightarrow> issue list \<Rightarrow> string \<Rightarrow> nat" where
  "first_seen who issues n = length (takeWhile (\<lambda>i. user_name (who i) \<noteq> Some n) issues)"

section \<open>Scenarios\<close>

definition status_change :: "string \<Rightarrow> string option \<Rightarrow> string option \<Rightarrow> history" where
  "status_change time old new =
     \<lparr>h_created = time,
      h_items = [\<lparr>field = Some ''status'', fromString = old, toString = new\<rparr>],
      h_author = None\<rparr>"

definition plain_issue :: "string \<Rightarrow> string \<Rightarrow> string \<Rightarrow> string \<Rightarrow> issue" where
  "plain_issue k created_at updated_at status =
     \<lparr>key = k, created = created_at, updated = updated_at, status_name = status,
      assignee = None, reporter = None, priority = PriorityAbsent\<rparr>"

text \<open>The scenario of section 8 of the specification.\<close>

definition issue_X :: issue where
  "issue_X = plain_issue ''X'' ''2024-01-01T00:00:00Z'' ''2024-01-10T00:00:00Z'' ''Done''"

definition histories_X :: "string \<Rightarrow> history list" where
  "histories_X k =
     [status_change ''2024-01-03T00:00:00Z'' (Some ''Open'') (Some ''In Progress''),
      status_change ''2024-01-10T00:00:00Z'' (Some ''In Progress'') (Some ''Done'')]"

text \<open>A closed issue for which the tracker returns no history.\<close>

definition no_histories :: "string \<Rightarrow> history list" where
  "no_histories k = []"

text \<open>An issue whose only status change is stamped five days before its creation.\<close>

definition issue_early :: issue where
  "issue_early = plain_issue ''E'' ''2024-01-10T00:00:00Z'' ''2024-01-20T00:00:00Z'' ''Done''"

definition histories_early :: "string \<Rightarrow> history list" where
  "histories_early k = [status_change ''2024-01-05T00:00:00Z'' (Some ''Open'') (Some ''Done'')]"

text \<open>An open issue last updated by its latest status change.\<close>

definition issue_open :: issue where
  "issue_open =
     plain_issue ''P'' ''2024-01-01T00:00:00Z'' ''2024-01-03T00:00:00Z'' ''In Progress''"

definition histories_open :: "string \<Rightarrow> history list" where
  "histories_open k =
     [status_change ''2024-01-03T00:00:00Z'' (Some ''Open'') (Some ''In Progress'')]"

text \<open>A closed issue last updated before it was created.\<close>

definition issue_backdated :: issue where
  "issue_backdated =
     plain_issue ''B'' ''2024-01-10T00:00:00Z'' ''2024-01-03T00:00:00Z'' ''Resolved''"

text \<open>The same open issue, updated a week after its latest status change.\<close>

definition issue_open_later :: issue where
  "issue_open_later =
     plain_issue ''P'' ''2024-01-01T00:00:00Z'' ''2024-01-10T00:00:00Z'' ''In Progress''"

text \<open>The history of issue X when the tracker did not record the initial status.\<close>

definition histories_untracked :: "string \<Rightarrow> history list" where
  "histories_untracked k =
     [status_change ''2024-01-03T00:00:00Z'' None (Some ''In Progress''),
      status_change ''2024-01-10T00:00:00Z'' (Some ''In Progress'') (Some ''Done'')]"

text \<open>Five open issues, each assigned to and reported by the named user.\<close>

definition issue_of :: "string \<Rightarrow> string \<Rightarrow> issue" where
  "issue_of k name =
     (plain_issue k ''2024-01-01T00:00:00Z'' ''2024-01-03T00:00:00Z'' ''Open'')
       \<lparr>assignee := Some \<lparr>displayName = Some name\<rparr>,
        reporter := Some \<lparr>displayName = Some name\<rparr>\<rparr>"

definition team_issues :: "issue list" where
  "team_issues =
     [issue_of ''T-1'' ''Bob'', issue_of ''T-2'' ''Alice'', issue_of ''T-3'' ''Bob'',
      issue_of ''T-4'' ''Alice'', issue_of ''T-5'' ''Carol'']"

text \<open>An issue whose priority the tracker reports as \<open>null\<close>.\<close>

definition issue_null_priority :: issue where
  "issue_null_priority =
     (plain_issue ''N'' ''2024-01-01T00:00:00Z'' ''2024-01-03T00:00:00Z'' ''Open'')
       \<lparr>priority := PriorityNull\<rparr>"

section \<open>Evaluating the scenarios\<close>

lemma parse_iso_utc_values:
  "parse_iso_utc ''2024-01-01T00:00:00Z'' = \<lparr>instant = 1704067200000000, utcoffset = 0\<rparr>"
  "parse_iso_utc ''2024-01-03T00:00:00Z'' = \<lparr>instant = 1704240000000000, utcoffset = 0\<rparr>"
  "parse_iso_utc ''2024-01-05T00:00:00Z'' = \<lparr>instant = 1704412800000000, utcoffset = 0\<rparr>"
  "parse_iso_utc ''2024-01-10T00:00:00Z'' = \<lparr>instant = 1704844800000000, utcoffset = 0\<rparr>"
  "parse_iso_utc ''2024-01-20T00:00:00Z'' = \<lparr>instant = 1705708800000000, utcoffset = 0\<rparr>"
  by (simp_all add: parse_iso_utc_def int_of_digits_def digit_val_def days_from_civil_def)

lemma lower_values:
  "lower ''Done'' = ''done''"
  "lower ''Resolved'' = ''resolved''"
  "lower ''In Progress'' = ''in progress''"
  "lower ''Open'' = ''open''"
  by (simp_all add: lower_def lower_char_def)

lemma is_closed_status_values:
  "is_closed_status ''Done''"
  "is_closed_status ''Resolved''"
  "\<not> is_closed_status ''In Progress''"
  "\<not> is_closed_status ''Open''"
  by (simp_all add: is_closed_status_def lower_values)

section \<open>Strings: the terminal-status test\<close>

lemma str_in_sublist: "str_in sub s = sublist sub s"
  by (induction s) (simp_all add: sublist_Cons_right)

lemma map_eq_appendD:
  "map f xs = ys @ zs \<Longrightarrow> \<exists>us vs. xs = us @ vs \<and> map f us = ys \<and> map f vs = zs"
  by (rule exI [of _ "take (length ys) xs"], rule exI [of _ "drop (length ys) xs"])
     (metis append_eq_conv_conj append_take_drop_id drop_map take_map)

lemma str_in_lower_iff:
  "str_in w (lower name) \<longleftrightarrow> (\<exists>pre mid post. name = pre @ mid @ post \<and> lower mid = w)"
proof
  assume "str_in w (lower name)"
  then obtain ps ss where "map lower_char name = ps @ w @ ss"
    by (auto simp: str_in_sublist sublist_def lower_def)
  from map_eq_appendD [OF this]
  obtain pre rest where 1: "name = pre @ rest" and 2: "map lower_char rest = w @ ss"
    by blast
  from map_eq_appendD [OF 2]
  obtain mid post where 3: "rest = mid @ post" and 4: "map lower_char mid = w"
    by blast
  from 1 3 4 have "name = pre @ mid @ post \<and> lower mid = w"
    by (simp add: lower_def)
  then show "\<exists>pre mid post. name = pre @ mid @ post \<and> lower mid = w"
    by blast
next
  assume "\<exists>pre mid post. name = pre @ mid @ post \<and> lower mid = w"
  then obtain pre mid post where "name = pre @ mid @ post" "lower mid = w"
    by blast
  then have "lower name = lower pre @ w @ lower post"
    by (simp add: lower_def)
  then show "str_in w (lower name)"
    unfolding str_in_sublist sublist_def by blast
qed

lemma lower_keywords:
  "lower ''closed'' = ''closed''" "lower ''resolved'' = ''resolved''" "lower ''done'' = ''done''"
  by (simp_all add: lower_def lower_char_def)

lemma is_closed_status_iff: "is_closed_status name = terminal_status name"
  by (simp add: is_closed_status_def terminal_status_def contains_ignoring_case_def
      str_in_lower_iff lower_keywords)

section \<open>Durations\<close>

lemma days_expr: "total_seconds (dt_sub a b) / (24 * 3600) = days_between a b"
  by (simp add: total_seconds_def dt_sub_def days_between_def)

lemma days_between_neg: "days_between a b < 0 \<longleftrightarrow> instant a < instant b"
  by (simp add: days_between_def divide_less_0_iff)

lemma days_between_split: "days_between a c = days_between a b + days_between b c"
  by (simp add: days_between_def field_simps)

lemma days_between_nonneg: "0 \<le> days_between a b \<longleftrightarrow> instant b \<le> instant a"
  by (simp add: days_between_def zero_le_divide_iff)

lemma days_between_less: "days_between a c < days_between b c \<longleftrightarrow> instant a < instant b"
  by (simp add: days_between_def divide_less_cancel)

section \<open>The open duration\<close>

text \<open>
  C6: \<open>calculate_open_duration\<close> returns the time from \<open>created\<close> to \<open>updated\<close> in days
  exactly when the status name contains closed, resolved or done, whatever the case of
  its letters; for every other status name it returns \<open>None\<close>.
\<close>

theorem calculate_open_duration_iff_terminal:
  "calculate_open_duration parse i =
     (if terminal_status (status_name i)
      then Some (days_between (parse (updated i)) (parse (created i)))
      else None)"
  unfolding is_closed_status_iff [symmetric] calculate_open_duration_def days_expr
  by (simp add: is_closed_status_def Let_def)

theorem calculate_open_duration_iff_terminal_witness:
  "terminal_status ''Done'' \<and> calculate_open_duration parse_iso_utc issue_X = Some 9
   \<and> \<not> terminal_status ''In Progress''
   \<and> calculate_open_duration parse_iso_utc issue_open = None"
  using calculate_open_duration_iff_terminal [of parse_iso_utc issue_X]
    calculate_open_duration_iff_terminal [of parse_iso_utc issue_open]
  by (simp add: is_closed_status_iff [symmetric] is_closed_status_values issue_X_def
      issue_open_def plain_issue_def parse_iso_utc_values days_between_def)

text \<open>
  C10: for an issue with a closed status, \<open>calculate_open_duration\<close> returns the
  difference of \<open>updated\<close> and \<open>created\<close> in days as it is; when \<open>updated\<close> precedes
  \<open>created\<close> the returned duration is negative.
\<close>

theorem calculate_open_duration_unguarded:
  assumes "is_closed_status (status_name i)"
  shows "calculate_open_duration parse i
           = Some (days_between (parse (updated i)) (parse (created i)))
         \<and> (instant (parse (updated i)) < instant (parse (created i))
              \<longrightarrow> (\<exists>d. calculate_open_duration parse i = Some d \<and> d < 0))"
  using assms unfolding calculate_open_duration_def days_expr
  by (auto simp add: is_closed_status_def Let_def days_between_neg)

theorem calculate_open_duration_unguarded_witness:
  "is_closed_status (status_name issue_backdated)
   \<and> instant (parse_iso_utc (updated issue_backdated))
       < instant (parse_iso_utc (created issue_backdated))
   \<and> calculate_open_duration parse_iso_utc issue_backdated = Some (- 7)"
  using calculate_open_duration_unguarded [of issue_backdated parse_iso_utc]
  by (simp add: is_closed_status_values issue_backdated_def plain_issue_def
      parse_iso_utc_values days_between_def)

section \<open>The loop over the transitions\<close>

lemma sum_list_dict_add:
  "sum_list (dict_values (dict_add k v d)) = sum_list (dict_values d) + (v::real)"
  by (induction d) (auto simp: dict_values_def)

lemma dict_add_nonneg:
  "\<forall>x \<in> set (dict_values d). 0 \<le> x \<Longrightarrow> 0 \<le> (v::real)
     \<Longrightarrow> \<forall>x \<in> set (dict_values (dict_add k v d)). 0 \<le> x"
proof (induction d)
  case Nil
  then show ?case by (simp add: dict_values_def)
next
  case (Cons p d)
  obtain k' x where p: "p = (k', x)" by (cases p)
  from Cons.prems have "0 \<le> x" and rest: "\<forall>x \<in> set (dict_values d). 0 \<le> x"
    by (simp_all add: p dict_values_def)
  from Cons.IH [OF rest Cons.prems(2)] \<open>0 \<le> x\<close> rest Cons.prems(2) show ?case
    by (simp add: p dict_values_def)
qed

lemma process_transition_simp:
  "process_transition parse tr (d, start, cur) =
     ((if truthy (from_status tr)
       then dict_add (the (from_status tr)) (days_between (parse (timestamp tr)) start) d
       else d),
      parse (timestamp tr), to_status tr)"
  unfolding process_transition_def days_expr by (simp add: Let_def)

lemma fold_transitions_cursor:
  "fold (process_transition parse) ts (d, start, cur) = (d', start', cur') \<Longrightarrow> ts \<noteq> []
     \<Longrightarrow> start' = parse (timestamp (last ts)) \<and> cur' = to_status (last ts)"
proof (induction ts arbitrary: d start cur)
  case Nil
  then show ?case by simp
next
  case (Cons t ts)
  show ?case
  proof (cases "ts = []")
    case True
    with Cons.prems show ?thesis by (simp add: process_transition_simp)
  next
    case False
    from Cons.prems(1) have
      "fold (process_transition parse) ts
         (fst (process_transition parse t (d, start, cur)), parse (timestamp t), to_status t)
       = (d', start', cur')"
      by (simp add: process_transition_simp)
    from Cons.IH [OF this False] False show ?thesis
      by simp
  qed
qed

lemma fold_transitions_sum:
  "fold (process_transition parse) ts (d, start, cur) = (d', start', cur')
     \<Longrightarrow> sum_list (dict_values d')
           = sum_list (dict_values d) + days_between start' start - untracked_days parse start ts"
proof (induction ts arbitrary: d start cur)
  case Nil
  then show ?case by (simp add: days_between_def)
next
  case (Cons t ts)
  let ?t = "parse (timestamp t)"
  have split: "days_between start' start = days_between start' ?t + days_between ?t start"
    by (rule days_between_split)
  show ?case
  proof (cases "truthy (from_status t)")
    case True
    let ?d = "dict_add (the (from_status t)) (days_between ?t start) d"
    from Cons.prems True have
      "fold (process_transition parse) ts (?d, ?t, to_status t) = (d', start', cur')"
      by (simp add: process_transition_simp)
    from Cons.IH [OF this] have
      "sum_list (dict_values d')
         = sum_list (dict_values ?d) + days_between start' ?t - untracked_days parse ?t ts" .
    also have "sum_list (dict_values ?d) = sum_list (dict_values d) + days_between ?t start"
      by (rule sum_list_dict_add)
    also have "untracked_days parse ?t ts = untracked_days parse start (t # ts)"
      using True by simp
    finally show ?thesis
      using split by linarith
  next
    case False
    from Cons.prems False have
      "fold (process_transition parse) ts (d, ?t, to_status t) = (d', start', cur')"
      by (simp add: process_transition_simp)
    from Cons.IH [OF this] have
      "sum_list (dict_values d')
         = sum_list (dict_values d) + days_between start' ?t - untracked_days parse ?t ts" .
    moreover have "untracked_days parse start (t # ts)
                     = days_between ?t start + untracked_days parse ?t ts"
      using False by simp
    ultimately show ?thesis
      using split by linarith
  qed
qed

lemma fold_transitions_nonneg:
  "fold (process_transition parse) ts (d, start, cur) = (d', start', cur')
     \<Longrightarrow> chronological parse start ts \<Longrightarrow> \<forall>x \<in> set (dict_values d). 0 \<le> x
     \<Longrightarrow> \<forall>x \<in> set (dict_values d'). 0 \<le> x"
proof (induction ts arbitrary: d start cur)
  case Nil
  then show ?case by simp
next
  case (Cons t ts)
  let ?t = "parse (timestamp t)"
  let ?d = "if truthy (from_status t)
            then dict_add (the (from_status t)) (days_between ?t start) d else d"
  from Cons.prems(1) have 1:
    "fold (process_transition parse) ts (?d, ?t, to_status t) = (d', start', cur')"
    by (simp add: process_transition_simp)
  from Cons.prems(2) have 2: "chronological parse ?t ts"
    by simp
  from Cons.prems(2) have 3: "0 \<le> days_between ?t start"
    by (simp add: days_between_nonneg)
  have 4: "\<forall>x \<in> set (dict_values ?d). 0 \<le> x"
  proof (cases "truthy (from_status t)")
    case True
    with dict_add_nonneg [OF Cons.prems(3) 3] show ?thesis by simp
  next
    case False
    with Cons.prems(3) show ?thesis by simp
  qed
  from Cons.IH [OF 1 2 4] show ?case .
qed

lemma untracked_days_nonneg:
  "chronological parse start ts \<Longrightarrow> 0 \<le> untracked_days parse start ts"
proof (induction ts arbitrary: start)
  case Nil
  then show ?case by simp
next
  case (Cons t ts)
  from Cons.prems have "0 \<le> days_between (parse (timestamp t)) start"
    by (simp add: days_between_nonneg)
  moreover from Cons.prems Cons.IH have "0 \<le> untracked_days parse (parse (timestamp t)) ts"
    by simp
  ultimately show ?case by simp
qed


lemma calculate_time_in_status_unfold:
  assumes "get_issue_transitions histories (key i) = ts" and "ts \<noteq> []"
    and "fold (process_transition parse) ts ([], parse (created i), Some (status_name i))
           = (d, start, cur)"
  shows "calculate_time_in_status parse histories i =
     (case to_status (last ts) of
        None \<Rightarrow> Inl AttributeError
      | Some s \<Rightarrow>
          if is_closed_status s
          then Inr (dict_add s (days_between (parse (updated i)) (parse (timestamp (last ts)))) d)
          else Inr d)"
proof -
  from fold_transitions_cursor [OF assms(3) assms(2)]
  have "start = parse (timestamp (last ts))" and "cur = to_status (last ts)"
    by simp_all
  with assms show ?thesis
    unfolding calculate_time_in_status_def days_expr
    by (simp add: is_closed_status_def Let_def split: option.split)
qed

lemmas scenario_defs =
  get_issue_transitions_def history_transitions_def status_change_def plain_issue_def
  issue_X_def histories_X_def no_histories_def issue_early_def histories_early_def
  issue_open_def histories_open_def issue_open_later_def histories_untracked_def

lemma transitions_X:
  "get_issue_transitions histories_X ''X'' =
     [\<lparr>issue_key = ''X'', timestamp = ''2024-01-03T00:00:00Z'', from_status = Some ''Open'',
       to_status = Some ''In Progress'', author = ''Unknown''\<rparr>,
      \<lparr>issue_key = ''X'', timestamp = ''2024-01-10T00:00:00Z'',
       from_status = Some ''In Progress'', to_status = Some ''Done'', author = ''Unknown''\<rparr>]"
  by (simp add: scenario_defs)

lemma transitions_untracked:
  "get_issue_transitions histories_untracked ''X'' =
     [\<lparr>issue_key = ''X'', timestamp = ''2024-01-03T00:00:00Z'', from_status = None,
       to_status = Some ''In Progress'', author = ''Unknown''\<rparr>,
      \<lparr>issue_key = ''X'', timestamp = ''2024-01-10T00:00:00Z'',
       from_status = Some ''In Progress'', to_status = Some ''Done'', author = ''Unknown''\<rparr>]"
  by (simp add: scenario_defs)

lemma transitions_early:
  "get_issue_transitions histories_early ''E'' =
     [\<lparr>issue_key = ''E'', timestamp = ''2024-01-05T00:00:00Z'', from_status = Some ''Open'',
       to_status = Some ''Done'', author = ''Unknown''\<rparr>]"
  by (simp add: scenario_defs)

lemma transitions_open:
  "get_issue_transitions histories_open ''P'' =
     [\<lparr>issue_key = ''P'', timestamp = ''2024-01-03T00:00:00Z'', from_status = Some ''Open'',
       to_status = Some ''In Progress'', author = ''Unknown''\<rparr>]"
  by (simp add: scenario_defs)


lemma transitions_none: "get_issue_transitions no_histories k = []"
  by (simp add: scenario_defs)

lemmas time_in_status_defs =
  calculate_time_in_status_def process_transition_def total_seconds_def dt_sub_def
  days_between_def parse_iso_utc_values lower_values plain_issue_def Let_def

lemma time_in_status_X:
  "calculate_time_in_status parse_iso_utc histories_X issue_X
     = Inr [(''Open'', 2), (''In Progress'', 7), (''Done'', 0)]"
  by (simp add: time_in_status_defs transitions_X issue_X_def)

lemma time_in_status_untracked:
  "calculate_time_in_status parse_iso_utc histories_untracked issue_X
     = Inr [(''In Progress'', 7), (''Done'', 0)]"
  by (simp add: time_in_status_defs transitions_untracked issue_X_def)

lemma time_in_status_early:
  "calculate_time_in_status parse_iso_utc histories_early issue_early
     = Inr [(''Open'', - 5), (''Done'', 15)]"
  by (simp add: time_in_status_defs transitions_early issue_early_def)

lemma time_in_status_open:
  "calculate_time_in_status parse_iso_utc histories_open issue_open = Inr [(''Open'', 2)]"
  by (simp add: time_in_status_defs transitions_open issue_open_def)

lemma time_in_status_open_later:
  "calculate_time_in_status parse_iso_utc histories_open issue_open_later = Inr [(''Open'', 2)]"
  by (simp add: time_in_status_defs transitions_open issue_open_later_def)


lemma time_in_status_none:
  "calculate_time_in_status parse_iso_utc no_histories issue_X = Inr []"
  by (simp add: calculate_time_in_status_def transitions_none)

lemma sorted_transitions:
  "sorted (map timestamp (get_issue_transitions histories k))"
  by (simp add: get_issue_transitions_def)

section \<open>Time in status: the claims\<close>

text \<open>
  C1 (as amended): for every issue whose transition list is empty, whatever its status,
  \<open>calculate_time_in_status\<close> returns the empty map; the lifetime of the issue is not
  attributed to its status.
\<close>
theorem calculate_time_in_status_no_transitions:
  assumes "get_issue_transitions histories (key i) = []"
  shows "calculate_time_in_status parse histories i = Inr []"
  using assms by (simp add: calculate_time_in_status_def)

theorem calculate_time_in_status_no_transitions_witness:
  "get_issue_transitions no_histories (key issue_X) = []
   \<and> is_closed_status (status_name issue_X)
   \<and> calculate_time_in_status parse_iso_utc no_histories issue_X = Inr []"
  using calculate_time_in_status_no_transitions [of no_histories issue_X parse_iso_utc]
  by (simp add: transitions_none issue_X_def plain_issue_def is_closed_status_values)

text \<open>
  C1 as stated fails: a closed issue without transitions gets the empty map, not the
  single entry for its status.
\<close>
theorem single_entry_counterexample:
  "get_issue_transitions no_histories (key issue_X) = []
   \<and> is_closed_status (status_name issue_X)
   \<and> calculate_time_in_status parse_iso_utc no_histories issue_X
       \<noteq> Inr [(status_name issue_X,
                days_between (parse_iso_utc (updated issue_X))
                  (parse_iso_utc (created issue_X)))]"
  unfolding time_in_status_none
  by (simp add: transitions_none issue_X_def plain_issue_def is_closed_status_values)

text \<open>
  C2 (as amended): when the timestamps are in chronological order (the first transition
  not before \<open>created\<close>, no transition before its predecessor, the last one not after
  \<open>updated\<close>) and the last transition names a status, the function returns a map and none
  of its values is negative.
\<close>
theorem calculate_time_in_status_nonneg:
  assumes "get_issue_transitions histories (key i) = ts"
    and "chronological parse (parse (created i)) ts"
    and "ts \<noteq> [] \<longrightarrow> instant (parse (timestamp (last ts))) \<le> instant (parse (updated i))"
    and "ts \<noteq> [] \<longrightarrow> to_status (last ts) \<noteq> None"
  shows "\<exists>d. calculate_time_in_status parse histories i = Inr d
             \<and> (\<forall>v \<in> set (dict_values d). 0 \<le> v)"
proof (cases "ts = []")
  case True
  with assms(1) show ?thesis
    by (simp add: calculate_time_in_status_def dict_values_def)
next
  case False
  obtain d start cur where f:
    "fold (process_transition parse) ts ([], parse (created i), Some (status_name i))
       = (d, start, cur)"
    by (cases "fold (process_transition parse) ts
                 ([], parse (created i), Some (status_name i))")
  have "\<forall>v \<in> set (dict_values ([] :: real dict)). 0 \<le> v"
    by (simp add: dict_values_def)
  from fold_transitions_nonneg [OF f assms(2) this]
  have d: "\<forall>v \<in> set (dict_values d). 0 \<le> v" .
  from assms(4) False obtain s where s: "to_status (last ts) = Some s"
    by auto
  from assms(3) False
  have "0 \<le> days_between (parse (updated i)) (parse (timestamp (last ts)))"
    by (simp add: days_between_nonneg)
  from dict_add_nonneg [OF d this]
  have "\<forall>v \<in> set (dict_values
          (dict_add s (days_between (parse (updated i)) (parse (timestamp (last ts)))) d)).
          0 \<le> v" .
  with d s calculate_time_in_status_unfold [OF assms(1) False f] show ?thesis
    by simp
qed

theorem calculate_time_in_status_nonneg_witness:
  "chronological parse_iso_utc (parse_iso_utc (created issue_X))
     (get_issue_transitions histories_X (key issue_X))
   \<and> instant (parse_iso_utc (timestamp (last (get_issue_transitions histories_X (key issue_X)))))
       \<le> instant (parse_iso_utc (updated issue_X))
   \<and> to_status (last (get_issue_transitions histories_X (key issue_X))) \<noteq> None
   \<and> (\<exists>d. calculate_time_in_status parse_iso_utc histories_X issue_X = Inr d
           \<and> (\<forall>v \<in> set (dict_values d). 0 \<le> v))"
  using calculate_time_in_status_nonneg
    [of histories_X issue_X "get_issue_transitions histories_X (key issue_X)" parse_iso_utc]
  by (simp add: issue_X_def plain_issue_def transitions_X parse_iso_utc_values)

text \<open>
  C2 as stated fails: nothing clamps or rejects an interval that ends before it starts.
  A transition stamped before the creation of the issue is accumulated as \<open>-5\<close> days.
\<close>
theorem negative_duration_counterexample:
  "instant (parse_iso_utc
      (timestamp (hd (get_issue_transitions histories_early (key issue_early)))))
     < instant (parse_iso_utc (created issue_early))
   \<and> calculate_time_in_status parse_iso_utc histories_early issue_early
       = Inr [(''Open'', - 5), (''Done'', 15)]
   \<and> snd (hd (projr (calculate_time_in_status parse_iso_utc histories_early issue_early))) < 0"
  unfolding time_in_status_early
  by (simp add: issue_early_def plain_issue_def transitions_early parse_iso_utc_values)




text \<open>
  C4 (as amended): in the scenario of section 8 the returned map has three entries,
  Open with 2 days, In Progress with 7 days and Done with 0 days.
\<close>
theorem concrete_scenario_three_entries:
  "calculate_time_in_status parse_iso_utc histories_X issue_X
     = Inr [(''Open'', 2), (''In Progress'', 7), (''Done'', 0)]"
  by (rule time_in_status_X)

text \<open>
  C4 as stated fails: the returned map is not the two-entry map, since the closing
  status Done is entered with 0 days.
\<close>
theorem concrete_scenario_counterexample:
  "map_of (projr (calculate_time_in_status parse_iso_utc histories_X issue_X))
     \<noteq> map_of [(''Open'', 2), (''In Progress'', 7)]"
proof
  assume "map_of (projr (calculate_time_in_status parse_iso_utc histories_X issue_X))
            = map_of [(''Open'', 2), (''In Progress'', 7)]"
  then have "map_of [(''Open'', 2), (''In Progress'', 7), (''Done'', 0 :: real)] ''Done''
               = map_of [(''Open'', 2), (''In Progress'', 7)] ''Done''"
    unfolding time_in_status_X by simp
  then show False by simp
qed

text \<open>
  C5 (as amended): when the status after the last transition is not closed, the interval
  after the last transition is not added: the result is the same for every value of
  \<open>updated\<close>, and its values add up to the time from \<open>created\<close> to the last transition
  less the intervals attributed to no status. When moreover the timestamps are in
  chronological order from \<open>created\<close> and the last transition is strictly before
  \<open>updated\<close>, the sum is strictly less than the time from \<open>created\<close> to \<open>updated\<close>.
\<close>
theorem calculate_time_in_status_open:
  assumes "get_issue_transitions histories (key i) = ts"
    and "ts \<noteq> []"
    and "to_status (last ts) = Some s"
    and "\<not> is_closed_status s"
  shows "\<exists>d. calculate_time_in_status parse histories i = Inr d
             \<and> calculate_time_in_status parse histories (i\<lparr>updated := u\<rparr>) = Inr d
             \<and> sum_list (dict_values d)
                 = days_between (parse (timestamp (last ts))) (parse (created i))
                   - untracked_days parse (parse (created i)) ts
             \<and> (chronological parse (parse (created i)) ts
                  \<and> instant (parse (timestamp (last ts))) < instant (parse (updated i))
                \<longrightarrow> sum_list (dict_values d)
                      < days_between (parse (updated i)) (parse (created i)))"
proof -
  let ?last = "parse (timestamp (last ts))"
  obtain d start cur where f:
    "fold (process_transition parse) ts ([], parse (created i), Some (status_name i))
       = (d, start, cur)"
    by (cases "fold (process_transition parse) ts
                 ([], parse (created i), Some (status_name i))")
  from fold_transitions_cursor [OF f assms(2)] have start: "start = ?last" by simp
  from calculate_time_in_status_unfold [OF assms(1) assms(2) f] assms(3) assms(4)
  have r: "calculate_time_in_status parse histories i = Inr d"
    by simp
  have f': "fold (process_transition parse) ts
              ([], parse (created (i\<lparr>updated := u\<rparr>)), Some (status_name (i\<lparr>updated := u\<rparr>)))
            = (d, start, cur)"
    using f by simp
  have k: "get_issue_transitions histories (key (i\<lparr>updated := u\<rparr>)) = ts"
    using assms(1) by simp
  from calculate_time_in_status_unfold [OF k assms(2) f'] assms(3) assms(4)
  have r': "calculate_time_in_status parse histories (i\<lparr>updated := u\<rparr>) = Inr d"
    by simp
  from fold_transitions_sum [OF f] start
  have sum: "sum_list (dict_values d)
               = days_between ?last (parse (created i))
                 - untracked_days parse (parse (created i)) ts"
    by (simp add: dict_values_def)
  have less: "sum_list (dict_values d) < days_between (parse (updated i)) (parse (created i))"
    if c: "chronological parse (parse (created i)) ts"
      and l: "instant ?last < instant (parse (updated i))"
  proof -
    from untracked_days_nonneg [OF c] sum
    have "sum_list (dict_values d) \<le> days_between ?last (parse (created i))"
      by linarith
    also from l have "\<dots> < days_between (parse (updated i)) (parse (created i))"
      by (simp add: days_between_less)
    finally show ?thesis .
  qed
  from r r' sum less show ?thesis by blast
qed

theorem calculate_time_in_status_open_witness:
  "get_issue_transitions histories_open (key issue_open_later) \<noteq> []
   \<and> to_status (last (get_issue_transitions histories_open (key issue_open_later)))
       = Some ''In Progress''
   \<and> \<not> is_closed_status ''In Progress''
   \<and> chronological parse_iso_utc (parse_iso_utc (created issue_open_later))
       (get_issue_transitions histories_open (key issue_open_later))
   \<and> instant (parse_iso_utc
         (timestamp (last (get_issue_transitions histories_open (key issue_open_later)))))
       < instant (parse_iso_utc (updated issue_open_later))
   \<and> (\<exists>d. calculate_time_in_status parse_iso_utc histories_open issue_open_later = Inr d
           \<and> sum_list (dict_values d) = 2
           \<and> sum_list (dict_values d)
               < days_between (parse_iso_utc (updated issue_open_later))
                   (parse_iso_utc (created issue_open_later)))"
  using calculate_time_in_status_open
    [of histories_open issue_open_later
        "get_issue_transitions histories_open (key issue_open_later)" "''In Progress''"
        parse_iso_utc "updated issue_open_later"]
  by (simp add: issue_open_later_def plain_issue_def transitions_open parse_iso_utc_values
      is_closed_status_values days_between_def)

text \<open>
  C5 as stated fails: for an open issue last updated at its latest transition the sum
  equals the time from \<open>created\<close> to \<open>updated\<close>.
\<close>
theorem open_issue_sum_counterexample:
  "get_issue_transitions histories_open (key issue_open) \<noteq> []
   \<and> to_status (last (get_issue_transitions histories_open (key issue_open)))
       = Some ''In Progress''
   \<and> \<not> is_closed_status ''In Progress''
   \<and> \<not> sum_list (dict_values
            (projr (calculate_time_in_status parse_iso_utc histories_open issue_open)))
         < days_between (parse_iso_utc (updated issue_open))
             (parse_iso_utc (created issue_open))"
  unfolding time_in_status_open
  by (simp add: issue_open_def plain_issue_def transitions_open parse_iso_utc_values
      is_closed_status_values days_between_def dict_values_def)

section \<open>Daily trend: the claim\<close>

lemma cumsum_from_bounds:
  "sorted (cumsum_from acc xs) \<and> (\<forall>y \<in> set (cumsum_from acc xs). acc \<le> y)"
proof (induction xs arbitrary: acc)
  case Nil
  show ?case by simp
next
  case (Cons x xs)
  from Cons.IH [of "acc + x"] show ?case
    by auto
qed

lemma sorted_cumsum: "sorted (cumsum xs)"
  by (simp add: cumsum_def cumsum_from_bounds)

lemma cumsum_from_nth:
  "k < length xs \<Longrightarrow> cumsum_from acc xs ! k = acc + sum_list (take (Suc k) xs)"
proof (induction xs arbitrary: acc k)
  case Nil
  then show ?case by simp
next
  case (Cons x xs)
  then show ?case by (cases k) simp_all
qed

lemma length_cumsum_from: "length (cumsum_from acc xs) = length xs"
  by (induction xs arbitrary: acc) simp_all

lemma count_list_map:
  "count_list (map f xs) d = length (filter (\<lambda>x. f x = d) xs)"
  by (induction xs) simp_all

lemma observed_dates_set:
  "observed_dates parse issues =
     set (map (\<lambda>i. date (parse (created i))) issues
          @ map (\<lambda>i. date (parse (updated i)))
              (filter (\<lambda>i. str_in ''closed'' (lower (status_name i))
                            \<or> str_in ''resolved'' (lower (status_name i))
                            \<or> str_in ''done'' (lower (status_name i))) issues))"
  by (auto simp: observed_dates_def is_closed_status_def)

lemma upto_step: "Suc k < length [a..b] \<Longrightarrow> [a..b] ! Suc k = [a..b] ! k + 1"
  by simp

text \<open>
  C7: for a non-empty list of issues the daily trend is produced; its date range runs
  from the earliest to the latest observed date, both of which are observed, contains
  every date in between in steps of one day, the daily counts are the numbers of issues
  created and closed on each date of the range (zero when there is none), and the two
  cumulative series have one entry for every date of the range, the running total of the
  daily counts up to that date, and never decrease from one date to the next.
\<close>

theorem daily_trend_contiguous_monotone:
  assumes "issues \<noteq> []"
  shows "\<exists>r. generate_daily_task_trend parse issues = Some r
     \<and> Min (observed_dates parse issues) \<in> observed_dates parse issues
     \<and> Max (observed_dates parse issues) \<in> observed_dates parse issues
     \<and> date_range r = [Min (observed_dates parse issues)..Max (observed_dates parse issues)]
     \<and> date_range r \<noteq> []
     \<and> set (date_range r)
         = {d. Min (observed_dates parse issues) \<le> d \<and> d \<le> Max (observed_dates parse issues)}
     \<and> (\<forall>k. Suc k < length (date_range r) \<longrightarrow> date_range r ! Suc k = date_range r ! k + 1)
     \<and> created_counts r
         = map (\<lambda>d. length (filter (\<lambda>i. date (parse (created i)) = d) issues)) (date_range r)
     \<and> closed_counts r
         = map (\<lambda>d. length (filter (\<lambda>i. date (parse (updated i)) = d)
                               (filter (\<lambda>i. is_closed_status (status_name i)) issues)))
             (date_range r)
     \<and> cumulative_created r = cumsum (created_counts r)
     \<and> cumulative_closed r = cumsum (closed_counts r)
     \<and> sorted (cumulative_created r) \<and> sorted (cumulative_closed r)
     \<and> length (cumulative_created r) = length (date_range r)
     \<and> length (cumulative_closed r) = length (date_range r)
     \<and> (\<forall>k. k < length (date_range r)
            \<longrightarrow> cumulative_created r ! k = sum_list (take (Suc k) (created_counts r)))
     \<and> (\<forall>k. k < length (date_range r)
            \<longrightarrow> cumulative_closed r ! k = sum_list (take (Suc k) (closed_counts r)))
     \<and> (\<forall>k. Suc k < length (date_range r)
            \<longrightarrow> cumulative_created r ! k \<le> cumulative_created r ! Suc k)
     \<and> (\<forall>k. Suc k < length (date_range r)
            \<longrightarrow> cumulative_closed r ! k \<le> cumulative_closed r ! Suc k)"
proof -
  let ?D = "observed_dates parse issues"
  have fin: "finite ?D" by (simp add: observed_dates_def)
  from assms have ne: "?D \<noteq> {}" by (auto simp: observed_dates_def)
  let ?days = "[Min ?D..Max ?D]"
  let ?created = "map (count_list (map (\<lambda>i. date (parse (created i))) issues)) ?days"
  let ?closed = "map (count_list (map (\<lambda>i. date (parse (updated i)))
                        (filter (\<lambda>i. is_closed_status (status_name i)) issues))) ?days"
  let ?r = "\<lparr>date_range = ?days, created_counts = ?created, closed_counts = ?closed,
            cumulative_created = cumsum ?created, cumulative_closed = cumsum ?closed\<rparr>"
  have r: "generate_daily_task_trend parse issues = Some ?r"
    using assms unfolding generate_daily_task_trend_def observed_dates_set
    by (simp add: Let_def is_closed_status_def)
  have mm: "Min ?D \<in> ?D" "Max ?D \<in> ?D"
    using fin ne by (rule Min_in, rule Max_in)
  from fin ne have "Min ?D \<le> Max ?D" by simp
  then have nonempty: "?days \<noteq> []"
    by (simp add: upto.simps)
  have range: "set ?days = {d. Min ?D \<le> d \<and> d \<le> Max ?D}"
    by auto
  have step: "\<forall>k. Suc k < length ?days \<longrightarrow> ?days ! Suc k = ?days ! k + 1"
    by simp
  have created: "?created
         = map (\<lambda>d. length (filter (\<lambda>i. date (parse (created i)) = d) issues)) ?days"
    by (simp add: count_list_map)
  have closed: "?closed
         = map (\<lambda>d. length (filter (\<lambda>i. date (parse (updated i)) = d)
                               (filter (\<lambda>i. is_closed_status (status_name i)) issues)))
             ?days"
    by (simp add: count_list_map)
  have srt: "sorted (cumsum ?created)" "sorted (cumsum ?closed)"
    by (rule sorted_cumsum)+
  have len: "length (cumsum ?created) = length ?days" "length (cumsum ?closed) = length ?days"
    by (simp_all add: cumsum_def length_cumsum_from)
  have total_created:
    "\<forall>k. k < length ?days \<longrightarrow> cumsum ?created ! k = sum_list (take (Suc k) ?created)"
    by (simp add: cumsum_def cumsum_from_nth)
  have total_closed:
    "\<forall>k. k < length ?days \<longrightarrow> cumsum ?closed ! k = sum_list (take (Suc k) ?closed)"
    by (simp add: cumsum_def cumsum_from_nth)
  have mono_created:
    "\<forall>k. Suc k < length ?days \<longrightarrow> cumsum ?created ! k \<le> cumsum ?created ! Suc k"
    using srt(1) len(1) by (simp add: sorted_nth_mono)
  have mono_closed:
    "\<forall>k. Suc k < length ?days \<longrightarrow> cumsum ?closed ! k \<le> cumsum ?closed ! Suc k"
    using srt(2) len(2) by (simp add: sorted_nth_mono)
  have "generate_daily_task_trend parse issues = Some ?r
     \<and> Min ?D \<in> ?D \<and> Max ?D \<in> ?D
     \<and> date_range ?r = ?days
     \<and> date_range ?r \<noteq> []
     \<and> set (date_range ?r) = {d. Min ?D \<le> d \<and> d \<le> Max ?D}
     \<and> (\<forall>k. Suc k < length (date_range ?r) \<longrightarrow> date_range ?r ! Suc k = date_range ?r ! k + 1)
     \<and> created_counts ?r
         = map (\<lambda>d. length (filter (\<lambda>i. date (parse (created i)) = d) issues)) (date_range ?r)
     \<and> closed_counts ?r
         = map (\<lambda>d. length (filter (\<lambda>i. date (parse (updated i)) = d)
                               (filter (\<lambda>i. is_closed_status (status_name i)) issues)))
             (date_range ?r)
     \<and> cumulative_created ?r = cumsum (created_counts ?r)
     \<and> cumulative_closed ?r = cumsum (closed_counts ?r)
     \<and> sorted (cumulative_created ?r) \<and> sorted (cumulative_closed ?r)
     \<and> length (cumulative_created ?r) = length (date_range ?r)
     \<and> length (cumulative_closed ?r) = length (date_range ?r)
     \<and> (\<forall>k. k < length (date_range ?r)
            \<longrightarrow> cumulative_created ?r ! k = sum_list (take (Suc k) (created_counts ?r)))
     \<and> (\<forall>k. k < length (date_range ?r)
            \<longrightarrow> cumulative_closed ?r ! k = sum_list (take (Suc k) (closed_counts ?r)))
     \<and> (\<forall>k. Suc k < length (date_range ?r)
            \<longrightarrow> cumulative_created ?r ! k \<le> cumulative_created ?r ! Suc k)
     \<and> (\<forall>k. Suc k < length (date_range ?r)
            \<longrightarrow> cumulative_closed ?r ! k \<le> cumulative_closed ?r ! Suc k)"
    unfolding daily_task_trend.simps
    using r mm nonempty range step created closed srt len total_created total_closed
      mono_created mono_closed
    by (intro conjI) (assumption | rule refl)+
  then show ?thesis
    by - (rule exI [of _ ?r], assumption)
qed

lemma daily_trend_X:
  "generate_daily_task_trend parse_iso_utc [issue_X]
     = Some \<lparr>date_range = [19723, 19724, 19725, 19726, 19727, 19728, 19729, 19730, 19731, 19732],
             created_counts = [1, 0, 0, 0, 0, 0, 0, 0, 0, 0],
             closed_counts = [0, 0, 0, 0, 0, 0, 0, 0, 0, 1],
             cumulative_created = [1, 1, 1, 1, 1, 1, 1, 1, 1, 1],
             cumulative_closed = [0, 0, 0, 0, 0, 0, 0, 0, 0, 1]\<rparr>"
  by (simp add: generate_daily_task_trend_def issue_X_def plain_issue_def parse_iso_utc_values
      lower_values date_def cumsum_def Let_def)

theorem daily_trend_contiguous_monotone_witness:
  "[issue_X] \<noteq> []
   \<and> (\<exists>r. generate_daily_task_trend parse_iso_utc [issue_X] = Some r
         \<and> date_range r = [19723, 19724, 19725, 19726, 19727, 19728, 19729, 19730, 19731, 19732]
         \<and> cumulative_created r = [1, 1, 1, 1, 1, 1, 1, 1, 1, 1]
         \<and> cumulative_closed r = [0, 0, 0, 0, 0, 0, 0, 0, 0, 1]
         \<and> length (cumulative_created r) = length (date_range r)
         \<and> length (cumulative_closed r) = length (date_range r)
         \<and> sorted (cumulative_created r) \<and> sorted (cumulative_closed r))"
proof -
  have ne: "[issue_X] \<noteq> []" by simp
  from daily_trend_contiguous_monotone [OF ne, of parse_iso_utc]
  obtain r where r: "generate_daily_task_trend parse_iso_utc [issue_X] = Some r"
    and sorted: "sorted (cumulative_created r)" "sorted (cumulative_closed r)"
    and len: "length (cumulative_created r) = length (date_range r)"
      "length (cumulative_closed r) = length (date_range r)"
    by (elim exE conjE) (rule that, assumption+)
  from r have "date_range r
                 = [19723, 19724, 19725, 19726, 19727, 19728, 19729, 19730, 19731, 19732]"
    and "cumulative_created r = [1, 1, 1, 1, 1, 1, 1, 1, 1, 1]"
    and "cumulative_closed r = [0, 0, 0, 0, 0, 0, 0, 0, 0, 1]"
    unfolding daily_trend_X by auto
  with ne r sorted len show ?thesis
    by (intro conjI exI [of _ r]) assumption+
qed

section \<open>Priorities: the claim\<close>

lemma priority_label_error: "priority_label p = Inl e \<longleftrightarrow> p = PriorityNull"
  by (cases p rule: priority_label.cases; cases e) auto

lemma count_priorities_null:
  "PriorityNull \<in> priority ` set issues \<Longrightarrow> count_priorities issues d = Inl AttributeError"
proof (induction issues arbitrary: d)
  case Nil
  then show ?case by simp
next
  case (Cons i issues)
  show ?case
  proof (cases "priority_label (priority i)")
    case (Inl e)
    then show ?thesis by (cases e) simp
  next
    case (Inr label)
    then have "priority i \<noteq> PriorityNull" by auto
    with Cons.prems have "PriorityNull \<in> priority ` set issues" by auto
    from Cons.IH [OF this] Inr show ?thesis by simp
  qed
qed

lemma count_priorities_returns:
  "PriorityNull \<notin> priority ` set issues \<Longrightarrow> \<exists>c. count_priorities issues d = Inr c"
proof (induction issues arbitrary: d)
  case Nil
  then show ?case by simp
next
  case (Cons i issues)
  from Cons.prems have "priority i \<noteq> PriorityNull" by auto
  then obtain label where l: "priority_label (priority i) = Inr label"
    by (cases "priority i" rule: priority_label.cases) auto
  from Cons.prems have "PriorityNull \<notin> priority ` set issues" by auto
  from Cons.IH [OF this] l show ?case by simp
qed

lemma absent_priority_unknown:
  "generate_priority_distribution [issue_X, issue_open] = Inr (Some ([''Unknown''], [2]))"
  by (simp add: generate_priority_distribution_def issue_X_def issue_open_def plain_issue_def
      dict_keys_def dict_values_def)

text \<open>
  C9: an issue without priority should be counted under the label Unknown. The code does
  so when the key \<open>priority\<close> is absent (\<open>absent_priority_unknown\<close>), and it returns
  whenever no priority is \<open>null\<close> (\<open>count_priorities_returns\<close>); but for an issue whose
  priority is \<open>null\<close> the aggregation raises \<open>AttributeError\<close> instead of counting it,
  as it does for every list that holds such an issue (\<open>count_priorities_null\<close>).
\<close>

theorem null_priority_raises:
  "generate_priority_distribution [issue_null_priority] = Inl AttributeError"
  by (simp add: generate_priority_distribution_def issue_null_priority_def plain_issue_def)

section \<open>Ranking of users: the claim\<close>

lemma keys_dict_add:
  "map fst (dict_add k v d) = (if k \<in> fst ` set d then map fst d else map fst d @ [k])"
proof (induction d)
  case Nil
  show ?case by simp
next
  case (Cons p d)
  obtain k' x where p: "p = (k', x)" by (cases p)
  show ?case
  proof (cases "k' = k")
    case True
    then show ?thesis by (simp add: p)
  next
    case False
    with Cons.IH show ?thesis by (simp add: p)
  qed
qed

lemma count_user_name:
  "count_user who i d = (case user_name (who i) of None \<Rightarrow> d | Some n \<Rightarrow> dict_add n 1 d)"
  by (simp add: count_user_def user_name_def split: option.splits)

lemma user_counts_snoc:
  "user_counts who (issues @ [i]) = count_user who i (user_counts who issues)"
  by (simp add: user_counts_def)

lemma keys_seen:
  "fst ` set (user_counts who issues) = {n. \<exists>i \<in> set issues. user_name (who i) = Some n}"
proof (induction issues rule: rev_induct)
  case Nil
  show ?case by (simp add: user_counts_def)
next
  case (snoc i issues)
  have "fst ` set (dict_add n 1 d) = insert n (fst ` set d)" for n and d :: "int dict"
  proof -
    have "fst ` set (dict_add n 1 d) = set (map fst (dict_add n 1 d))" by simp
    also have "\<dots> = insert n (fst ` set d)"
      unfolding keys_dict_add by auto
    finally show ?thesis .
  qed
  with snoc show ?case
    by (auto simp: user_counts_snoc count_user_name split: option.splits)
qed

lemma length_takeWhile_less:
  "\<exists>x \<in> set xs. \<not> P x \<Longrightarrow> length (takeWhile P xs) < length xs"
  by (induction xs) auto

lemma first_seen_less:
  "\<exists>i \<in> set issues. user_name (who i) = Some n \<Longrightarrow> first_seen who issues n < length issues"
  unfolding first_seen_def by (rule length_takeWhile_less) simp

lemma first_seen_append_old:
  "\<exists>i \<in> set issues. user_name (who i) = Some n
     \<Longrightarrow> first_seen who (issues @ rest) n = first_seen who issues n"
  unfolding first_seen_def by (auto simp: takeWhile_append1)

lemma first_seen_new:
  "\<not> (\<exists>i \<in> set issues. user_name (who i) = Some n) \<Longrightarrow> user_name (who i) = Some n
     \<Longrightarrow> first_seen who (issues @ [i]) n = length issues"
  unfolding first_seen_def by (simp add: takeWhile_append2)

lemma keys_order:
  "map fst (user_counts who issues) = us @ a # vs @ b # ws
     \<Longrightarrow> first_seen who issues a < first_seen who issues b"
proof (induction issues arbitrary: ws rule: rev_induct)
  case Nil
  then show ?case by (simp add: user_counts_def)
next
  case (snoc i issues)
  let ?keys = "map fst (user_counts who issues)"
  have seen: "\<exists>j \<in> set issues. user_name (who j) = Some n" if "n \<in> set ?keys" for n
    using that keys_seen [of who issues] by auto
  have old: "first_seen who (issues @ [i]) a < first_seen who (issues @ [i]) b"
    if "?keys = us @ a # vs @ b # ws'" for ws'
  proof -
    from that have "a \<in> set ?keys" "b \<in> set ?keys" by simp_all
    then show ?thesis
      using snoc.IH [OF that] first_seen_append_old [OF seen] by simp
  qed
  show ?case
  proof (cases "user_name (who i)")
    case None
    with snoc.prems have "?keys = us @ a # vs @ b # ws"
      by (simp add: user_counts_snoc count_user_name)
    then show ?thesis by (rule old)
  next
    case (Some n)
    show ?thesis
    proof (cases "n \<in> set ?keys")
      case True
      with Some snoc.prems have "?keys = us @ a # vs @ b # ws"
        by (simp add: user_counts_snoc count_user_name keys_dict_add)
      then show ?thesis by (rule old)
    next
      case False
      with Some snoc.prems have eq: "?keys @ [n] = us @ a # vs @ b # ws"
        by (simp add: user_counts_snoc count_user_name keys_dict_add)
      show ?thesis
      proof (cases ws rule: rev_cases)
        case Nil
        with eq have keys: "?keys = us @ a # vs" and b: "b = n"
          by simp_all
        from keys have "a \<in> set ?keys" by simp
        from seen [OF this] have a: "\<exists>j \<in> set issues. user_name (who j) = Some a" .
        from False keys_seen [of who issues]
        have "\<not> (\<exists>j \<in> set issues. user_name (who j) = Some n)"
          by auto
        from first_seen_new [OF this Some] first_seen_less [OF a] first_seen_append_old [OF a]
        show ?thesis by (simp add: b)
      next
        case (snoc ws' x)
        with eq have "?keys = us @ a # vs @ b # ws'"
          by simp
        then show ?thesis by (rule old)
      qed
    qed
  qed
qed

lemma filter_eq_appendD:
  "filter P xs = ys @ zs \<Longrightarrow> \<exists>us vs. xs = us @ vs \<and> filter P us = ys \<and> filter P vs = zs"
proof (induction xs arbitrary: ys)
  case Nil
  then show ?case by simp
next
  case (Cons x xs)
  show ?case
  proof (cases "P x")
    case False
    with Cons.prems have "filter P xs = ys @ zs" by simp
    from Cons.IH [OF this] obtain us vs
      where "xs = us @ vs" "filter P us = ys" "filter P vs = zs" by blast
    with False have "x # xs = (x # us) @ vs \<and> filter P (x # us) = ys \<and> filter P vs = zs"
      by simp
    then show ?thesis by blast
  next
    case True
    show ?thesis
    proof (cases ys)
      case Nil
      then have "x # xs = [] @ (x # xs) \<and> filter P [] = ys \<and> filter P (x # xs) = zs"
        using Cons.prems by simp
      then show ?thesis by blast
    next
      case (Cons y ys')
      with True Cons.prems have "x = y" "filter P xs = ys' @ zs" by simp_all
      from Cons.IH [OF this(2)] obtain us vs
        where "xs = us @ vs" "filter P us = ys'" "filter P vs = zs" by blast
      with True Cons \<open>x = y\<close>
      have "x # xs = (x # us) @ vs \<and> filter P (x # us) = ys \<and> filter P vs = zs"
        by simp
      then show ?thesis by blast
    qed
  qed
qed

lemma filter_eq_ConsE:
  "filter P xs = y # zs \<Longrightarrow> \<exists>us vs. xs = us @ y # vs \<and> filter P vs = zs"
  by (auto simp: filter_eq_Cons_iff)

lemma filter_pairD:
  assumes "filter P xs = ys @ a # ms @ b # zs"
  shows "\<exists>us vs ws. xs = us @ a # vs @ b # ws"
proof -
  from filter_eq_appendD [OF assms] obtain u1 r1
    where 1: "xs = u1 @ r1" and "filter P r1 = a # ms @ b # zs" by blast
  from filter_eq_ConsE [OF this(2)] obtain u2 r2
    where 2: "r1 = u2 @ a # r2" and "filter P r2 = ms @ b # zs" by blast
  from filter_eq_appendD [OF this(2)] obtain u3 r3
    where 3: "r2 = u3 @ r3" and "filter P r3 = b # zs" by blast
  from filter_eq_ConsE [OF this(2)] obtain u4 r4
    where 4: "r3 = u4 @ b # r4" by blast
  from 1 2 3 4 have "xs = (u1 @ u2) @ a # (u3 @ u4) @ b # r4"
    by simp
  then show ?thesis by blast
qed

lemma sort_key_keeps_order:
  assumes "sort_key f xs = us @ a # vs @ b # ws" and "f a = f b"
  shows "\<exists>us' vs' ws'. xs = us' @ a # vs' @ b # ws'"
proof -
  let ?P = "\<lambda>y. f y = f a"
  have "filter ?P xs = filter ?P (sort_key f xs)"
    by (rule sort_key_stable [symmetric])
  also have "\<dots> = filter ?P us @ a # filter ?P vs @ b # filter ?P ws"
    using assms by simp
  finally show ?thesis by (rule filter_pairD)
qed

lemma nth_pair_split:
  assumes "i < j" and "j < length xs"
  shows "\<exists>us vs ws. xs = us @ xs ! i # vs @ xs ! j # ws"
proof -
  from assms have i: "i < length xs" by simp
  have 1: "xs = take i xs @ xs ! i # drop (Suc i) xs"
    using i by (rule id_take_nth_drop)
  let ?r = "drop (Suc i) xs"
  from assms have j: "j - Suc i < length ?r" by simp
  have 2: "?r = take (j - Suc i) ?r @ ?r ! (j - Suc i) # drop (Suc (j - Suc i)) ?r"
    using j by (rule id_take_nth_drop)
  from assms have "?r ! (j - Suc i) = xs ! j" by simp
  with 1 2 have "xs = take i xs @ xs ! i # take (j - Suc i) ?r @ xs ! j
                         # drop (Suc (j - Suc i)) ?r"
    by metis
  then show ?thesis by blast
qed

lemma slice_to_take: "\<exists>n. slice_to k xs = take n xs"
  by (auto simp: slice_to_def)

lemma top_users_stable:
  assumes "r = top_users top_n (user_counts who issues)"
    and "i < j" and "j < length r" and "snd (r ! i) = snd (r ! j)"
  shows "first_seen who issues (fst (r ! i)) < first_seen who issues (fst (r ! j))"
proof -
  let ?d = "user_counts who issues"
  let ?s = "sort_key (\<lambda>x. - snd x) ?d"
  from slice_to_take obtain n where "slice_to top_n ?s = take n ?s" by blast
  with assms(1) have r: "r = take n ?s" by (simp add: top_users_def)
  from nth_pair_split [OF assms(2) assms(3)] obtain us vs ws
    where "r = us @ r ! i # vs @ r ! j # ws" by blast
  with r have "take n ?s @ drop n ?s = (us @ r ! i # vs @ r ! j # ws) @ drop n ?s"
    by simp
  then have s: "?s = us @ r ! i # vs @ r ! j # (ws @ drop n ?s)"
    by simp
  from assms(4) have "- snd (r ! i) = - snd (r ! j)" by simp
  from sort_key_keeps_order [OF s this] obtain us' vs' ws'
    where "?d = us' @ r ! i # vs' @ r ! j # ws'" by blast
  then have "map fst ?d = map fst us' @ fst (r ! i) # map fst vs' @ fst (r ! j) # map fst ws'"
    by simp
  then show ?thesis by (rule keys_order)
qed

text \<open>
  C8: in the rankings of assignees and of reporters, of two users with equal counts the
  one listed first is the one whose first issue comes first in the input list; this holds
  for every \<open>top_n\<close>.
\<close>
theorem ranking_ties_first_encountered:
  assumes "generate_user_task_distribution issues top_n = (top_assignees, top_reporters)"
  shows "(\<forall>i j. i < j \<and> j < length top_assignees
                  \<and> snd (top_assignees ! i) = snd (top_assignees ! j)
            \<longrightarrow> first_seen assignee issues (fst (top_assignees ! i))
                  < first_seen assignee issues (fst (top_assignees ! j)))
       \<and> (\<forall>i j. i < j \<and> j < length top_reporters
                  \<and> snd (top_reporters ! i) = snd (top_reporters ! j)
            \<longrightarrow> first_seen reporter issues (fst (top_reporters ! i))
                  < first_seen reporter issues (fst (top_reporters ! j)))"
proof -
  from assms have a: "top_assignees = top_users top_n (user_counts assignee issues)"
    and r: "top_reporters = top_users top_n (user_counts reporter issues)"
    by (simp_all add: generate_user_task_distribution_def Let_def)
  from top_users_stable [OF a] top_users_stable [OF r] show ?thesis
    by blast
qed

lemma team_ranking:
  "generate_user_task_distribution team_issues 30
     = ([(''Bob'', 2), (''Alice'', 2), (''Carol'', 1)],
        [(''Bob'', 2), (''Alice'', 2), (''Carol'', 1)])"
  by (simp add: generate_user_task_distribution_def top_users_def slice_to_def
      user_counts_def count_user_def team_issues_def issue_of_def plain_issue_def)

lemma team_first_seen:
  "first_seen assignee team_issues ''Bob'' = 0"
  "first_seen assignee team_issues ''Alice'' = 1"
  "first_seen reporter team_issues ''Bob'' = 0"
  "first_seen reporter team_issues ''Alice'' = 1"
  by (simp_all add: first_seen_def user_name_def team_issues_def issue_of_def plain_issue_def)

theorem ranking_ties_first_encountered_witness:
  "generate_user_task_distribution team_issues 30
     = ([(''Bob'', 2), (''Alice'', 2), (''Carol'', 1)],
        [(''Bob'', 2), (''Alice'', 2), (''Carol'', 1)])
   \<and> first_seen assignee team_issues ''Bob'' < first_seen assignee team_issues ''Alice''
   \<and> first_seen reporter team_issues ''Bob'' < first_seen reporter team_issues ''Alice''"
proof -
  from ranking_ties_first_encountered [OF team_ranking]
  have "(0::nat) < 1 \<and> 1 < length [(''Bob'', 2::int), (''Alice'', 2), (''Carol'', 1)]
          \<and> snd ([(''Bob'', 2::int), (''Alice'', 2), (''Carol'', 1)] ! 0)
              = snd ([(''Bob'', 2::int), (''Alice'', 2), (''Carol'', 1)] ! 1)
        \<longrightarrow> first_seen assignee team_issues
              (fst ([(''Bob'', 2::int), (''Alice'', 2), (''Carol'', 1)] ! 0))
            < first_seen assignee team_issues
                (fst ([(''Bob'', 2::int), (''Alice'', 2), (''Carol'', 1)] ! 1))"
    and "(0::nat) < 1 \<and> 1 < length [(''Bob'', 2::int), (''Alice'', 2), (''Carol'', 1)]
          \<and> snd ([(''Bob'', 2::int), (''Alice'', 2), (''Carol'', 1)] ! 0)
              = snd ([(''Bob'', 2::int), (''Alice'', 2), (''Carol'', 1)] ! 1)
        \<longrightarrow> first_seen reporter team_issues
              (fst ([(''Bob'', 2::int), (''Alice'', 2), (''Carol'', 1)] ! 0))
            < first_seen reporter team_issues
                (fst ([(''Bob'', 2::int), (''Alice'', 2), (''Carol'', 1)] ! 1))"
    by blast+
  then show ?thesis
    by (simp add: team_ranking)
qed

end
